theory Spec2Isabelle
  imports Main
begin

section \<open>The authentication API of auth-api.js\<close>

text \<open>
  The program is one Express application, \<^verbatim>\<open>src/auth-api.js\<close>: a list \<^verbatim>\<open>users\<close>
  held in memory, a middleware \<^verbatim>\<open>verifyToken\<close>, and the handlers of
  \<^verbatim>\<open>POST /api/register\<close>, \<^verbatim>\<open>POST /api/login\<close> and \<^verbatim>\<open>GET /api/protegido\<close>.
  Each handler is embedded as a function from the store and the request to the store
  and the response. What a handler reads from outside the program is an argument of
  its model: the clock (seconds, as \<^verbatim>\<open>Math.floor(Date.now() / 1000)\<close>), the random
  salt of a hash, and the two libraries the file requires, \<^verbatim>\<open>bcrypt\<close> and
  \<^verbatim>\<open>jsonwebtoken\<close>.
\<close>

subsection \<open>Data\<close>

text \<open>An element of \<^verbatim>\<open>users\<close>: \<^verbatim>\<open>{ id, username, password }\<close> (lines 70 to 74).\<close>

record user =
  id_user :: nat
  username :: string
  password :: string

type_synonym store = "user list"

text \<open>
  The fields \<^verbatim>\<open>username\<close> and \<^verbatim>\<open>password\<close> of \<^verbatim>\<open>req.body\<close>. A field is a string
  or is missing (\<open>None\<close>: \<^verbatim>\<open>undefined\<close> or \<^verbatim>\<open>null\<close>); the model keeps to the type
  the data model gives the two fields, so a number, a boolean, an array or an object
  in their place is outside it.
\<close>

record body =
  body_username :: "string option"
  body_password :: "string option"

text \<open>
  The payload of a token: what line 116 signs, \<^verbatim>\<open>{ id, username }\<close>, with the two
  time stamps \<^verbatim>\<open>iat\<close> and \<^verbatim>\<open>exp\<close> that \<^verbatim>\<open>jwt.sign\<close> adds, in seconds.
\<close>

record payload =
  claim_id :: nat
  claim_username :: string
  iat :: nat
  exp_at :: nat

text \<open>The JSON bodies the handlers send, and a response: a status and a body.\<close>

datatype json_body =
    Message string
  | MessageToken string string
  | MessageUser string payload

datatype response = Response nat json_body

fun status :: "response \<Rightarrow> nat" where
  "status (Response c b) = c"

fun json :: "response \<Rightarrow> json_body" where
  "json (Response c b) = b"

text \<open>The token a body carries, if it carries one.\<close>

fun token_of :: "json_body \<Rightarrow> string option" where
  "token_of (MessageToken m t) = Some t"
| "token_of (Message m) = None"
| "token_of (MessageUser m u) = None"

text \<open>The identity a body carries, if it carries one.\<close>

fun user_of :: "json_body \<Rightarrow> payload option" where
  "user_of (MessageUser m u) = Some u"
| "user_of (Message m) = None"
| "user_of (MessageToken m t) = None"

subsection \<open>The messages\<close>

text \<open>
  The message texts of the source, as the bytes of their UTF-8 encoding (a \<open>char\<close> is
  a byte): the accented letters are two bytes each.
\<close>

definition msg_required :: string where
  "msg_required = ''Se requiere usuario y contrase'' @ [CHR 0xC3, CHR 0xB1] @ ''a''"

definition msg_exists :: string where
  "msg_exists = ''El usuario ya existe''"

definition msg_registered :: string where
  "msg_registered = ''Usuario registrado exitosamente''"

definition msg_internal :: string where
  "msg_internal = ''Error interno del servidor''"

definition msg_auth_error :: string where
  "msg_auth_error = ''Error en la autenticaci'' @ [CHR 0xC3, CHR 0xB3] @ ''n''"

definition msg_auth_ok :: string where
  "msg_auth_ok = ''Autenticaci'' @ [CHR 0xC3, CHR 0xB3] @ ''n satisfactoria''"

definition msg_no_token :: string where
  "msg_no_token = ''Token no proporcionado''"

definition msg_bad_token :: string where
  "msg_bad_token = ''Token inv'' @ [CHR 0xC3, CHR 0xA1] @ ''lido''"

definition msg_protected :: string where
  "msg_protected = ''Ruta protegida accedida exitosamente''"

subsection \<open>The libraries\<close>

text \<open>
  \<^verbatim>\<open>bcrypt\<close> and \<^verbatim>\<open>jsonwebtoken\<close> are required by the file and are not part of it.
  Their primitives are parameters of the model, collected in one record:
  \<^item> \<open>bcrypt_hash pw rounds salt\<close> is \<^verbatim>\<open>bcrypt.hash(pw, rounds)\<close> when the library draws
    the salt \<open>salt\<close>; \<open>None\<close> is a rejected promise (the \<^verbatim>\<open>await\<close> throws);
  \<^item> \<open>bcrypt_compare pw h\<close> is \<^verbatim>\<open>bcrypt.compare(pw, h)\<close>, \<open>None\<close> again a rejection;
  \<^item> \<open>jws_encode p sg\<close> is the compact serialisation of the payload \<open>p\<close> with the
    signature \<open>sg\<close> (three base64url segments joined by dots), \<open>jws_decode\<close> reads one;
  \<^item> \<open>hmac key p\<close> is the HS256 signature of the payload \<open>p\<close> under \<open>key\<close>.
\<close>

record lib =
  bcrypt_hash :: "string \<Rightarrow> nat \<Rightarrow> string \<Rightarrow> string option"
  bcrypt_compare :: "string \<Rightarrow> string \<Rightarrow> bool option"
  jws_encode :: "payload \<Rightarrow> string \<Rightarrow> string"
  jws_decode :: "string \<Rightarrow> (payload \<times> string) option"
  hmac :: "string \<Rightarrow> payload \<Rightarrow> string"

text \<open>
  What the model asks of the libraries. Of \<^verbatim>\<open>bcrypt\<close>: a password compares equal to
  every hash made of it. Of the serialisation: decoding undoes encoding, and a
  serialised token is not empty and has no space in it (its alphabet is base64url and
  the dot).
\<close>

definition bcrypt_sound :: "lib \<Rightarrow> bool" where
  "bcrypt_sound L \<longleftrightarrow>
     (\<forall>pw r s h. bcrypt_hash L pw r s = Some h \<longrightarrow> bcrypt_compare L pw h = Some True)"

definition jws_sound :: "lib \<Rightarrow> bool" where
  "jws_sound L \<longleftrightarrow>
     (\<forall>p sg. jws_decode L (jws_encode L p sg) = Some (p, sg)) \<and>
     (\<forall>p sg. jws_encode L p sg \<noteq> []) \<and>
     (\<forall>p sg. CHR '' '' \<notin> set (jws_encode L p sg))"

text \<open>
  Modelled from the spec: \<^verbatim>\<open>jwt.sign\<close> and \<^verbatim>\<open>jwt.verify\<close> of the \<^verbatim>\<open>jsonwebtoken\<close>
  package, which is not under \<^verbatim>\<open>src/\<close>. Section 4.3: issue embeds
  \<open>issuedAt = now\<close> and \<open>expiresAt = now + TTL\<close> and signs the claim set with the
  secret. Section 4.4: verify (a) parses, failing with \<open>Malformed\<close>, (b) validates the
  signature, failing with \<open>InvalidSignature\<close>, (c) compares \<open>expiresAt\<close> with the
  current time, failing with \<open>Expired\<close> if elapsed, in this order. The package counts
  a token as expired from the instant \<open>exp\<close> on (\<^verbatim>\<open>clockTimestamp >= payload.exp\<close>),
  and refuses a token that is \<^verbatim>\<open>undefined\<close> or empty before it parses anything.
\<close>

datatype jwt_error = NotProvided | Malformed | InvalidSignature | Expired

definition jwt_sign :: "lib \<Rightarrow> nat \<times> string \<Rightarrow> string \<Rightarrow> nat \<Rightarrow> nat \<Rightarrow> string" where
  "jwt_sign L claims secret expiresIn now =
     (let p = \<lparr>claim_id = fst claims, claim_username = snd claims,
                iat = now, exp_at = now + expiresIn\<rparr>
      in jws_encode L p (hmac L secret p))"

definition jwt_verify :: "lib \<Rightarrow> string option \<Rightarrow> string \<Rightarrow> nat \<Rightarrow> jwt_error + payload" where
  "jwt_verify L jwtString secret now =
     (case jwtString of
        None \<Rightarrow> Inl NotProvided
      | Some t \<Rightarrow>
          if t = [] then Inl NotProvided
          else (case jws_decode L t of
                  None \<Rightarrow> Inl Malformed
                | Some (p, sg) \<Rightarrow>
                    if sg \<noteq> hmac L secret p then Inl InvalidSignature
                    else if now \<ge> exp_at p then Inl Expired
                    else Inr p))"

subsection \<open>JavaScript helpers\<close>

text \<open>
  \<^verbatim>\<open>!v\<close> on a value that is a string or missing: a missing value and the empty string
  are falsy, every other string is truthy.
\<close>

definition truthy :: "string option \<Rightarrow> bool" where
  "truthy v = (case v of None \<Rightarrow> False | Some s \<Rightarrow> s \<noteq> [])"

text \<open>
  \<^verbatim>\<open>s.split(c)\<close> for a one-character separator: the pieces between the separators,
  in order; a string without the separator is its own single piece, the empty
  string included.
\<close>

fun split_js :: "char \<Rightarrow> string \<Rightarrow> string list" where
  "split_js c [] = [[]]"
| "split_js c (x # xs) =
     (if x = c then [] # split_js c xs
      else (case split_js c xs of
              [] \<Rightarrow> [[x]]
            | y # ys \<Rightarrow> (x # y) # ys))"

text \<open>\<^verbatim>\<open>a[1]\<close>: the second element, \<^verbatim>\<open>undefined\<close> when the array is shorter.\<close>

fun index1 :: "'a list \<Rightarrow> 'a option" where
  "index1 (x # y # ys) = Some y"
| "index1 xs = None"

text \<open>
  Line 15: \<^verbatim>\<open>process.env.JWT_SECRET || 'clave_secreta_jwt'\<close>. The secret is never
  empty.
\<close>

definition JWT_SECRET :: "string option \<Rightarrow> string" where
  "JWT_SECRET env = (if truthy env then the env else ''clave_secreta_jwt'')"

subsection \<open>The handlers\<close>

text \<open>
  \<^verbatim>\<open>POST /api/register\<close>, lines 52 to 81. The handler runs in two parts, divided by
  the \<^verbatim>\<open>await\<close> of line 67: \<open>register_check\<close> is all that runs before it (validation
  and the lookup; \<open>Inl\<close> is an early \<^verbatim>\<open>return\<close>, \<open>Inr\<close> the pair the handler goes
  on with), \<open>register_resume\<close> is all that runs after it, on the store as it is then,
  given the outcome of the hash. A request served alone is \<open>register\<close>: the two parts
  one after the other on the same store.
\<close>

definition register_check :: "store \<Rightarrow> body \<Rightarrow> response + (string \<times> string)" where
  "register_check users b =
     (if \<not> truthy (body_username b) \<or> \<not> truthy (body_password b)
      then Inl (Response 400 (Message msg_required))
      else if find (\<lambda>u. username u = the (body_username b)) users \<noteq> None
      then Inl (Response 409 (Message msg_exists))
      else Inr (the (body_username b), the (body_password b)))"

definition register_resume :: "store \<Rightarrow> string \<Rightarrow> string option \<Rightarrow> store \<times> response" where
  "register_resume users name hashed =
     (case hashed of
        None \<Rightarrow> (users, Response 500 (Message msg_internal))
      | Some hashedPassword \<Rightarrow>
          (users @ [\<lparr>id_user = length users + 1, username = name,
                     password = hashedPassword\<rparr>],
           Response 201 (Message msg_registered)))"

definition register :: "lib \<Rightarrow> string \<Rightarrow> store \<Rightarrow> body \<Rightarrow> store \<times> response" where
  "register L salt users b =
     (case register_check users b of
        Inl r \<Rightarrow> (users, r)
      | Inr (name, pw) \<Rightarrow> register_resume users name (bcrypt_hash L pw 10 salt))"

text \<open>
  \<^verbatim>\<open>POST /api/login\<close>, lines 90 to 129. \<^verbatim>\<open>'1h'\<close> is 3600 seconds. The handler does
  not write to \<^verbatim>\<open>users\<close>, so its model returns the response only.
\<close>

definition login :: "lib \<Rightarrow> string \<Rightarrow> nat \<Rightarrow> store \<Rightarrow> body \<Rightarrow> response" where
  "login L secret now users b =
     (if \<not> truthy (body_username b) \<or> \<not> truthy (body_password b)
      then Response 400 (Message msg_required)
      else (case find (\<lambda>u. username u = the (body_username b)) users of
              None \<Rightarrow> Response 401 (Message msg_auth_error)
            | Some u \<Rightarrow>
                (case bcrypt_compare L (the (body_password b)) (password u) of
                   None \<Rightarrow> Response 500 (Message msg_internal)
                 | Some isPasswordValid \<Rightarrow>
                     if \<not> isPasswordValid then Response 401 (Message msg_auth_error)
                     else Response 200
                            (MessageToken msg_auth_ok
                               (jwt_sign L (id_user u, username u) secret 3600 now)))))"

text \<open>
  The middleware \<^verbatim>\<open>verifyToken\<close>, lines 29 to 43, on the value of the
  \<^verbatim>\<open>authorization\<close> header (\<open>None\<close> when the request has none): \<open>Inl\<close> is the
  response it sends itself, \<open>Inr\<close> the \<^verbatim>\<open>req.user\<close> it hands to \<^verbatim>\<open>next()\<close>.
\<close>

definition verifyToken :: "lib \<Rightarrow> string \<Rightarrow> nat \<Rightarrow> string option \<Rightarrow> response + payload" where
  "verifyToken L secret now token =
     (if \<not> truthy token then Inl (Response 403 (Message msg_no_token))
      else (case jwt_verify L (index1 (split_js CHR '' '' (the token))) secret now of
              Inl error \<Rightarrow> Inl (Response 401 (Message msg_bad_token))
            | Inr decoded \<Rightarrow> Inr decoded))"

text \<open>
  \<^verbatim>\<open>GET /api/protegido\<close>, lines 136 to 141: the middleware, then the handler, which
  answers with the default status 200.
\<close>

definition protegido :: "lib \<Rightarrow> string \<Rightarrow> nat \<Rightarrow> string option \<Rightarrow> response" where
  "protegido L secret now token =
     (case verifyToken L secret now token of
        Inl r \<Rightarrow> r
      | Inr decoded \<Rightarrow> Response 200 (MessageUser msg_protected decoded))"

subsection \<open>Sequences of requests\<close>

text \<open>
  A request, with what it reads from outside: the salt for a registration, the clock
  for a login and for a call of the protected route.
\<close>

datatype request =
    Register body string
  | Login body nat
  | Authorize "string option" nat

fun serve :: "lib \<Rightarrow> string \<Rightarrow> store \<Rightarrow> request \<Rightarrow> store \<times> response" where
  "serve L secret users (Register b salt) = register L salt users b"
| "serve L secret users (Login b now) = (users, login L secret now users b)"
| "serve L secret users (Authorize h now) = (users, protegido L secret now h)"

text \<open>The store after a sequence of requests served one after the other.\<close>

fun serve_all :: "lib \<Rightarrow> string \<Rightarrow> store \<Rightarrow> request list \<Rightarrow> store" where
  "serve_all L secret users [] = users"
| "serve_all L secret users (r # rs) = serve_all L secret (fst (serve L secret users r)) rs"

subsection \<open>Two registrations that overlap\<close>

text \<open>
  The handler of a registration gives up control at its \<^verbatim>\<open>await\<close>, and another
  request can be served before it resumes. \<open>register_overlapped\<close> is the schedule in
  which a second registration arrives while the first waits for its hash: the part
  before the \<^verbatim>\<open>await\<close> runs for the first request and then for the second, both on
  the store as it was; then the first resumes, then the second. A request that returns
  before its \<^verbatim>\<open>await\<close> has no second part.
\<close>

definition register_overlapped ::
  "lib \<Rightarrow> store \<Rightarrow> body \<Rightarrow> string \<Rightarrow> body \<Rightarrow> string \<Rightarrow> store \<times> response \<times> response" where
  "register_overlapped L users b1 salt1 b2 salt2 =
     (case register_check users b1 of
        Inl r1 \<Rightarrow> (let (users2, r2) = register L salt2 users b2 in (users2, r1, r2))
      | Inr (name1, pw1) \<Rightarrow>
          (case register_check users b2 of
             Inl r2 \<Rightarrow>
               (let (users1, r1) = register_resume users name1 (bcrypt_hash L pw1 10 salt1)
                in (users1, r1, r2))
           | Inr (name2, pw2) \<Rightarrow>
               (let (users1, r1) = register_resume users name1 (bcrypt_hash L pw1 10 salt1);
                    (users2, r2) = register_resume users1 name2 (bcrypt_hash L pw2 10 salt2)
                in (users2, r1, r2))))"

subsection \<open>The invariant of the store\<close>

text \<open>
  The ids count up from 1 in the order of insertion, and no two records have the
  same name.
\<close>

definition store_inv :: "store \<Rightarrow> bool" where
  "store_inv users \<longleftrightarrow>
     map id_user users = [1..<Suc (length users)] \<and> distinct (map username users)"

subsection \<open>An instance of the libraries\<close>

text \<open>
  A small instance of the library record that meets both contracts, to evaluate the
  handlers at concrete requests. A number is written in unary and closed by a dot, a
  string as its length and then the codes of its characters; a token is the three
  numbers of the payload, the name and the signature. The hash of a password is the
  salt, a dollar sign and the password; an empty password is rejected.
\<close>

definition toy_nat :: "nat \<Rightarrow> string" where
  "toy_nat n = replicate n CHR ''1'' @ ''.''"

definition toy_str :: "string \<Rightarrow> string" where
  "toy_str s = toy_nat (length s) @ concat (map (\<lambda>c. toy_nat (of_char c)) s)"

definition read_nat :: "string \<Rightarrow> (nat \<times> string) option" where
  "read_nat s =
     (case dropWhile (\<lambda>c. c = CHR ''1'') s of
        [] \<Rightarrow> None
      | d # r \<Rightarrow> if d = CHR ''.'' then Some (length (takeWhile (\<lambda>c. c = CHR ''1'') s), r) else None)"

fun read_chars :: "nat \<Rightarrow> string \<Rightarrow> (string \<times> string) option" where
  "read_chars 0 s = Some ([], s)"
| "read_chars (Suc n) s =
     (case read_nat s of
        None \<Rightarrow> None
      | Some (k, r) \<Rightarrow>
          (case read_chars n r of
             None \<Rightarrow> None
           | Some (cs, r') \<Rightarrow> Some (char_of k # cs, r')))"

definition read_str :: "string \<Rightarrow> (string \<times> string) option" where
  "read_str s = (case read_nat s of None \<Rightarrow> None | Some (n, r) \<Rightarrow> read_chars n r)"

definition toy_encode :: "payload \<Rightarrow> string \<Rightarrow> string" where
  "toy_encode p sg =
     toy_nat (claim_id p) @ toy_nat (iat p) @ toy_nat (exp_at p) @
     toy_str (claim_username p) @ toy_str sg"

definition toy_decode :: "string \<Rightarrow> (payload \<times> string) option" where
  "toy_decode s =
     (case read_nat s of None \<Rightarrow> None | Some (i, s1) \<Rightarrow>
     (case read_nat s1 of None \<Rightarrow> None | Some (a, s2) \<Rightarrow>
     (case read_nat s2 of None \<Rightarrow> None | Some (e, s3) \<Rightarrow>
     (case read_str s3 of None \<Rightarrow> None | Some (u, s4) \<Rightarrow>
     (case read_str s4 of None \<Rightarrow> None | Some (sg, s5) \<Rightarrow>
        if s5 = [] then Some (\<lparr>claim_id = i, claim_username = u, iat = a, exp_at = e\<rparr>, sg)
        else None)))))"

definition toy :: lib where
  "toy = \<lparr>bcrypt_hash = (\<lambda>pw r s. if pw = [] then None else Some (s @ ''$'' @ pw)),
          bcrypt_compare = (\<lambda>pw h. Some (drop (length h - Suc (length pw)) h = ''$'' @ pw)),
          jws_encode = toy_encode,
          jws_decode = toy_decode,
          hmac = (\<lambda>key p. key @ claim_username p)\<rparr>"

text \<open>
  The requests and values of the examples: the registration of \<^verbatim>\<open>alice\<close>, a login
  of hers with a wrong password, a login of a user that was never registered, her
  record in the store, and the token and the claims of her login at second 5 under
  the secret \<^verbatim>\<open>k\<close>.
\<close>

definition alice :: body where
  "alice = \<lparr>body_username = Some ''alice'', body_password = Some ''s3cret!''\<rparr>"

definition alice_wrong :: body where
  "alice_wrong = \<lparr>body_username = Some ''alice'', body_password = Some ''wrong''\<rparr>"

definition ghost :: body where
  "ghost = \<lparr>body_username = Some ''ghost'', body_password = Some ''anything''\<rparr>"

definition alice_account :: user where
  "alice_account = \<lparr>id_user = 1, username = ''alice'', password = ''NaCl$s3cret!''\<rparr>"

definition alice_token :: string where
  "alice_token = jwt_sign toy (1, ''alice'') ''k'' 3600 5"

definition alice_claims :: payload where
  "alice_claims = \<lparr>claim_id = 1, claim_username = ''alice'', iat = 5, exp_at = 3605\<rparr>"

section \<open>Properties\<close>

subsection \<open>The instance meets the contracts\<close>

lemma read_nat_toy_nat: "read_nat (toy_nat n @ r) = Some (n, r)"
  by (simp add: read_nat_def toy_nat_def dropWhile_append takeWhile_append)

lemma read_chars_toy: "read_chars (length s) (concat (map (\<lambda>c. toy_nat (of_char c)) s) @ r) = Some (s, r)"
  by (induction s) (simp_all add: read_nat_toy_nat)

lemma read_str_toy_str: "read_str (toy_str s @ r) = Some (s, r)"
  by (simp add: read_str_def toy_str_def read_nat_toy_nat read_chars_toy)

lemma toy_decode_encode: "toy_decode (toy_encode p sg) = Some (p, sg)"
  using read_str_toy_str [of sg "[]"]
  by (simp add: toy_decode_def toy_encode_def read_nat_toy_nat read_str_toy_str)

lemma toy_decode_trailing:
  "toy_decode (toy_encode p sg @ r) = (if r = [] then Some (p, sg) else None)"
  by (simp add: toy_decode_def toy_encode_def read_nat_toy_nat read_str_toy_str)

lemma set_toy_nat: "set (toy_nat n) \<subseteq> {CHR ''1'', CHR ''.''}"
  by (auto simp: toy_nat_def)

lemma set_toy_str: "set (toy_str s) \<subseteq> {CHR ''1'', CHR ''.''}"
  using set_toy_nat by (fastforce simp: toy_str_def)

lemma toy_encode_no_space: "CHR '' '' \<notin> set (toy_encode p sg)"
proof -
  have "set (toy_encode p sg) \<subseteq> {CHR ''1'', CHR ''.''}"
    unfolding toy_encode_def set_append
    by (intro Un_least set_toy_nat set_toy_str)
  then show ?thesis by auto
qed

lemma toy_encode_not_empty: "toy_encode p sg \<noteq> []"
  by (simp add: toy_encode_def toy_nat_def)

lemma jws_sound_toy: "jws_sound toy"
  by (simp add: jws_sound_def toy_def toy_decode_encode toy_encode_no_space toy_encode_not_empty)

lemma bcrypt_sound_toy: "bcrypt_sound toy"
  by (auto simp: bcrypt_sound_def toy_def split: if_splits)

subsection \<open>Splitting a header\<close>

lemma split_js_not_Nil: "split_js c s \<noteq> []"
  by (induction s) (auto split: list.splits)

lemma split_js_no_sep: "c \<notin> set s \<Longrightarrow> split_js c s = [s]"
  by (induction s) auto

lemma hd_split_js: "hd (split_js c s) = takeWhile (\<lambda>x. x \<noteq> c) s"
  by (induction s) (auto split: list.splits simp: split_js_not_Nil)

lemma split_js_sep: "c \<notin> set w \<Longrightarrow> split_js c (w @ c # r) = w # split_js c r"
  by (induction w) auto

lemma index1_Cons: "ys \<noteq> [] \<Longrightarrow> index1 (x # ys) = Some (hd ys)"
  by (cases ys) auto

lemma index1_split_js:
  "c \<notin> set w \<Longrightarrow> index1 (split_js c (w @ c # r)) = Some (takeWhile (\<lambda>x. x \<noteq> c) r)"
  by (simp add: split_js_sep index1_Cons split_js_not_Nil hd_split_js)

lemma index1_split_js_no_sep: "c \<notin> set s \<Longrightarrow> index1 (split_js c s) = None"
  by (simp add: split_js_no_sep)

lemma takeWhile_no_sep: "c \<notin> set s \<Longrightarrow> takeWhile (\<lambda>x. x \<noteq> c) s = s"
  by (induction s) auto

lemma takeWhile_sep: "c \<notin> set s \<Longrightarrow> takeWhile (\<lambda>x. x \<noteq> c) (s @ c # r) = s"
  by (induction s) auto

subsection \<open>The handlers, case by case\<close>

lemma JWT_SECRET_not_empty: "JWT_SECRET env \<noteq> []"
  by (cases env) (simp_all add: JWT_SECRET_def truthy_def)


lemma find_append:
  "find P (xs @ ys) = (case find P xs of None \<Rightarrow> find P ys | Some x \<Rightarrow> Some x)"
  by (induction xs) auto

lemma truthy_Some: "truthy v \<longleftrightarrow> (\<exists>s. v = Some s \<and> s \<noteq> [])"
  by (cases v) (simp_all add: truthy_def)

lemma register_cases:
  "register L salt users b =
     (if \<not> truthy (body_username b) \<or> \<not> truthy (body_password b)
      then (users, Response 400 (Message msg_required))
      else if find (\<lambda>u. username u = the (body_username b)) users \<noteq> None
      then (users, Response 409 (Message msg_exists))
      else (case bcrypt_hash L (the (body_password b)) 10 salt of
              None \<Rightarrow> (users, Response 500 (Message msg_internal))
            | Some h \<Rightarrow> (users @ [\<lparr>id_user = length users + 1,
                                    username = the (body_username b), password = h\<rparr>],
                         Response 201 (Message msg_registered))))"
  by (simp add: register_def register_check_def register_resume_def)

lemma register_201D:
  assumes "register L salt users b = (users', r)" and "status r = 201"
  shows "\<exists>name pw h. body_username b = Some name \<and> body_password b = Some pw \<and>
    name \<noteq> [] \<and> pw \<noteq> [] \<and> find (\<lambda>u. username u = name) users = None \<and>
    bcrypt_hash L pw 10 salt = Some h \<and>
    users' = users @ [\<lparr>id_user = length users + 1, username = name, password = h\<rparr>] \<and>
    r = Response 201 (Message msg_registered)"
proof -
  have v: "truthy (body_username b)" "truthy (body_password b)"
    using assms by (auto simp: register_cases split: if_splits)
  then obtain name pw where b: "body_username b = Some name" "name \<noteq> []"
    "body_password b = Some pw" "pw \<noteq> []"
    by (auto simp: truthy_Some)
  have f: "find (\<lambda>u. username u = name) users = None"
    using assms v b by (auto simp: register_cases split: if_splits)
  obtain h where h: "bcrypt_hash L pw 10 salt = Some h"
    using assms v b f by (cases "bcrypt_hash L pw 10 salt") (auto simp: register_cases)
  show ?thesis
    using assms v b f h by (auto simp: register_cases)
qed

lemma login_found:
  assumes "body_username b = Some name" "name \<noteq> []" "body_password b = Some pw" "pw \<noteq> []"
    and "find (\<lambda>u. username u = name) users = Some u"
  shows "login L secret now users b =
     (case bcrypt_compare L pw (password u) of
        None \<Rightarrow> Response 500 (Message msg_internal)
      | Some ok \<Rightarrow>
          if ok then Response 200 (MessageToken msg_auth_ok
                       (jwt_sign L (id_user u, username u) secret 3600 now))
          else Response 401 (Message msg_auth_error))"
  using assms by (simp add: login_def truthy_def split: option.splits)

lemma login_200D:
  assumes "login L secret now users b = Response 200 (MessageToken m tok)"
  shows "\<exists>u::user. tok = jwt_sign L (id_user u, username u) secret 3600 now"
  using assms by (auto simp: login_def split: if_splits option.splits)

text \<open>
  Signing and then verifying: the token is refused from the instant \<open>now + ttl\<close>
  on and yields its payload before.
\<close>

lemma jwt_verify_sign:
  assumes "jws_sound L"
  shows "jwt_verify L (Some (jwt_sign L (i, n) secret ttl now)) secret t =
           (if now + ttl \<le> t then Inl Expired
            else Inr \<lparr>claim_id = i, claim_username = n, iat = now, exp_at = now + ttl\<rparr>)"
  using assms by (simp add: jwt_verify_def jwt_sign_def jws_sound_def Let_def)

lemma jwt_sign_no_space: "jws_sound L \<Longrightarrow> CHR '' '' \<notin> set (jwt_sign L c secret ttl now)"
  by (simp add: jwt_sign_def jws_sound_def Let_def)

lemma verifyToken_scheme:
  assumes "CHR '' '' \<notin> set scheme"
  shows "verifyToken L secret now (Some (scheme @ CHR '' '' # r)) =
           (case jwt_verify L (Some (takeWhile (\<lambda>x. x \<noteq> CHR '' '') r)) secret now of
              Inl e \<Rightarrow> Inl (Response 401 (Message msg_bad_token))
            | Inr p \<Rightarrow> Inr p)"
  using assms by (simp add: verifyToken_def truthy_def index1_split_js)

lemma protegido_bearer_signed:
  assumes "jws_sound L" and "CHR '' '' \<notin> set scheme"
  shows "protegido L secret t (Some (scheme @ '' '' @ jwt_sign L (i, n) secret ttl now)) =
           (if now + ttl \<le> t then Response 401 (Message msg_bad_token)
            else Response 200 (MessageUser msg_protected
                   \<lparr>claim_id = i, claim_username = n, iat = now, exp_at = now + ttl\<rparr>))"
  using assms
  by (simp add: protegido_def verifyToken_scheme takeWhile_no_sep jwt_sign_no_space
      jwt_verify_sign)

subsection \<open>The store only grows\<close>

lemma register_extends: "\<exists>new. fst (register L salt users b) = users @ new"
  by (simp add: register_cases split: option.splits)

lemma serve_extends: "\<exists>new. fst (serve L secret users r) = users @ new"
  by (cases r) (simp_all add: register_extends)

lemma serve_all_extends: "\<exists>new. serve_all L secret users rs = users @ new"
proof (induction rs arbitrary: users)
  case Nil
  then show ?case by simp
next
  case (Cons r rs)
  obtain n1 where 1: "fst (serve L secret users r) = users @ n1"
    using serve_extends by blast
  obtain n2 where "serve_all L secret (users @ n1) rs = (users @ n1) @ n2"
    using Cons.IH by blast
  with 1 show ?case by simp
qed

lemma serve_all_append:
  "serve_all L secret users (rs @ rs') = serve_all L secret (serve_all L secret users rs) rs'"
  by (induction rs arbitrary: users) simp_all

lemma store_inv_register: "store_inv users \<Longrightarrow> store_inv (fst (register L salt users b))"
  by (auto simp: register_cases store_inv_def find_None_iff split: option.splits)

lemma store_inv_serve: "store_inv users \<Longrightarrow> store_inv (fst (serve L secret users r))"
  by (cases r) (simp_all add: store_inv_register)

lemma store_inv_serve_all: "store_inv users \<Longrightarrow> store_inv (serve_all L secret users rs)"
  by (induction rs arbitrary: users) (simp_all add: store_inv_serve)

lemma store_inv_distinct_ids: "store_inv users \<Longrightarrow> distinct (map id_user users)"
  by (simp add: store_inv_def)

subsection \<open>The examples, evaluated\<close>

lemma register_alice:
  "register toy ''NaCl'' [] alice = ([alice_account], Response 201 (Message msg_registered))"
  by (simp add: register_cases truthy_def toy_def alice_def alice_account_def)

lemma login_alice:
  "login toy ''k'' 5 [alice_account] alice = Response 200 (MessageToken msg_auth_ok alice_token)"
  by (simp add: login_def truthy_def toy_def alice_def alice_account_def alice_token_def)

section \<open>The claims\<close>

subsection \<open>C1: register, login, authorize\<close>

text \<open>
  Claim C1. Round trip. When a registration succeeds (status 201) it appends one
  account whose name is the one sent; a login with the same body, after any further
  requests \<open>rs\<close> served in sequence, answers 200 with a token; and the protected
  route, called with that token as \<^verbatim>\<open>Bearer\<close> token before the token expires, answers
  200 with claims whose id and username are those of the account. The libraries are
  assumed to meet their contracts.
\<close>

theorem register_login_authorize_roundtrip:
  assumes "bcrypt_sound L" and "jws_sound L"
    and "register L salt users b = (users', r)" and "status r = 201"
    and "t_auth < t_login + 3600"
  shows "\<exists>acct tok. users' = users @ [acct] \<and> body_username b = Some (username acct) \<and>
      login L secret t_login (serve_all L secret users' rs) b =
        Response 200 (MessageToken msg_auth_ok tok) \<and>
      protegido L secret t_auth (Some (''Bearer '' @ tok)) =
        Response 200 (MessageUser msg_protected
          \<lparr>claim_id = id_user acct, claim_username = username acct,
           iat = t_login, exp_at = t_login + 3600\<rparr>)"
proof -
  obtain name pw h where b: "body_username b = Some name" "body_password b = Some pw"
      "name \<noteq> []" "pw \<noteq> []"
    and fresh: "find (\<lambda>u. username u = name) users = None"
    and h: "bcrypt_hash L pw 10 salt = Some h"
    and users': "users' = users @ [\<lparr>id_user = length users + 1, username = name, password = h\<rparr>]"
    using register_201D [OF assms(3,4)] by blast
  define acct where "acct = \<lparr>id_user = length users + 1, username = name, password = h\<rparr>"
  define tok where "tok = jwt_sign L (id_user acct, username acct) secret 3600 t_login"
  obtain new where new: "serve_all L secret users' rs = users' @ new"
    using serve_all_extends by blast
  have found: "find (\<lambda>u. username u = name) (serve_all L secret users' rs) = Some acct"
    unfolding new by (simp add: users' find_append fresh acct_def)
  have cmp: "bcrypt_compare L pw (password acct) = Some True"
    using assms(1) h by (simp add: bcrypt_sound_def acct_def)
  have "login L secret t_login (serve_all L secret users' rs) b =
          Response 200 (MessageToken msg_auth_ok tok)"
    by (simp add: login_found [OF b(1) b(3) b(2) b(4) found] cmp tok_def)
  moreover have "protegido L secret t_auth (Some (''Bearer '' @ tok)) =
        Response 200 (MessageUser msg_protected
          \<lparr>claim_id = id_user acct, claim_username = username acct,
           iat = t_login, exp_at = t_login + 3600\<rparr>)"
    using protegido_bearer_signed [OF assms(2), of "''Bearer''" secret t_auth] assms(5)
    by (simp add: tok_def)
  moreover have "users' = users @ [acct]" "body_username b = Some (username acct)"
    by (simp_all add: users' acct_def b)
  ultimately show ?thesis by blast
qed

text \<open>
  The theorem at the registration of \<^verbatim>\<open>alice\<close> on the empty store, a failed login of
  another user in between, her login at second 5 and the protected route one second
  before the token expires.
\<close>

theorem register_login_authorize_roundtrip_witness:
  "bcrypt_sound toy \<and> jws_sound toy \<and>
   register toy ''NaCl'' [] alice = ([alice_account], Response 201 (Message msg_registered)) \<and>
   (\<exists>tok. login toy ''k'' 5 (serve_all toy ''k'' [alice_account] [Login ghost 2]) alice =
            Response 200 (MessageToken msg_auth_ok tok) \<and>
          protegido toy ''k'' 3604 (Some (''Bearer '' @ tok)) =
            Response 200 (MessageUser msg_protected alice_claims))"
proof -
  have st: "status (Response 201 (Message msg_registered)) = 201" by simp
  have t: "(3604::nat) < 5 + 3600" by simp
  show ?thesis
    using register_login_authorize_roundtrip
      [OF bcrypt_sound_toy jws_sound_toy register_alice st t, of "''k''" "[Login ghost 2]"]
      bcrypt_sound_toy jws_sound_toy register_alice
    by (auto simp: alice_claims_def alice_account_def)
qed

subsection \<open>C2: a failed login does not tell whether the user exists\<close>

text \<open>
  Claim C2. Enumeration resistance. On every store, a login (both fields given) whose
  username is not in the store and a login whose username is in the store but whose
  password \<^verbatim>\<open>bcrypt.compare\<close> finds wrong get the same response: status 401 and the
  one message \<open>msg_auth_error\<close>, whatever the clock.
\<close>

theorem login_enumeration_resistance:
  assumes "truthy (body_username b1)" and "truthy (body_password b1)"
    and "truthy (body_username b2)" and "truthy (body_password b2)"
    and "find (\<lambda>u. username u = the (body_username b1)) users = None"
    and "find (\<lambda>u. username u = the (body_username b2)) users = Some u"
    and "bcrypt_compare L (the (body_password b2)) (password u) = Some False"
  shows "login L secret now1 users b1 = Response 401 (Message msg_auth_error) \<and>
         login L secret now2 users b2 = login L secret now1 users b1"
  using assms by (simp add: login_def)

text \<open>
  The theorem on the store that holds \<^verbatim>\<open>alice\<close>: the login of \<^verbatim>\<open>ghost\<close> and the
  login of \<^verbatim>\<open>alice\<close> with a wrong password.
\<close>

theorem login_enumeration_resistance_witness:
  "login toy ''k'' 7 [alice_account] ghost = Response 401 (Message msg_auth_error) \<and>
   login toy ''k'' 9 [alice_account] alice_wrong = login toy ''k'' 7 [alice_account] ghost"
proof -
  have 1: "truthy (body_username ghost)" "truthy (body_password ghost)"
    "truthy (body_username alice_wrong)" "truthy (body_password alice_wrong)"
    by (simp_all add: truthy_def ghost_def alice_wrong_def)
  have 2: "find (\<lambda>u. username u = the (body_username ghost)) [alice_account] = None"
    by (simp add: ghost_def alice_account_def)
  have 3: "find (\<lambda>u. username u = the (body_username alice_wrong)) [alice_account]
             = Some alice_account"
    by (simp add: alice_wrong_def alice_account_def)
  have 4: "bcrypt_compare toy (the (body_password alice_wrong)) (password alice_account)
             = Some False"
    by (simp add: alice_wrong_def alice_account_def toy_def)
  show ?thesis
    using login_enumeration_resistance [OF 1 2 3 4] .
qed

subsection \<open>C3: a username registers once\<close>

text \<open>
  Claim C3. For a body with both fields given whose username is not in the store,
  and a hash that succeeds, the registration answers 201 and appends one account;
  every later registration with the same username, after any requests \<open>rs\<close> served
  in sequence, whatever password and salt it comes with, answers 409 and leaves the
  store as it is.
\<close>

theorem register_once_then_duplicate:
  assumes "truthy (body_username b)" and "truthy (body_password b)"
    and "find (\<lambda>u. username u = the (body_username b)) users = None"
    and "bcrypt_hash L (the (body_password b)) 10 salt = Some h"
    and "body_username b' = body_username b" and "truthy (body_password b')"
  shows "\<exists>acct. register L salt users b =
             (users @ [acct], Response 201 (Message msg_registered)) \<and>
           register L salt' (serve_all L secret (users @ [acct]) rs) b' =
             (serve_all L secret (users @ [acct]) rs, Response 409 (Message msg_exists))"
proof -
  define acct where "acct = \<lparr>id_user = length users + 1,
    username = the (body_username b), password = h\<rparr>"
  obtain new where new: "serve_all L secret (users @ [acct]) rs = (users @ [acct]) @ new"
    using serve_all_extends by blast
  have "find (\<lambda>u. username u = the (body_username b)) (serve_all L secret (users @ [acct]) rs)
          = Some acct"
    unfolding new by (simp add: find_append assms(3) acct_def)
  then have "register L salt' (serve_all L secret (users @ [acct]) rs) b' =
             (serve_all L secret (users @ [acct]) rs, Response 409 (Message msg_exists))"
    using assms by (simp add: register_cases)
  moreover have "register L salt users b =
             (users @ [acct], Response 201 (Message msg_registered))"
    using assms by (simp add: register_cases acct_def)
  ultimately show ?thesis by blast
qed

text \<open>
  The theorem at the registration of \<^verbatim>\<open>alice\<close>, a login, and a second registration
  of \<^verbatim>\<open>alice\<close> with another password.
\<close>

theorem register_once_then_duplicate_witness:
  "register toy ''NaCl'' [] alice = ([alice_account], Response 201 (Message msg_registered)) \<and>
   register toy ''KCl'' (serve_all toy ''k'' [alice_account] [Login alice 3]) alice_wrong =
     (serve_all toy ''k'' [alice_account] [Login alice 3], Response 409 (Message msg_exists))"
proof -
  have 1: "truthy (body_username alice)" "truthy (body_password alice)"
    by (simp_all add: truthy_def alice_def)
  have 2: "find (\<lambda>u. username u = the (body_username alice)) [] = None"
    by simp
  have 3: "bcrypt_hash toy (the (body_password alice)) 10 ''NaCl'' = Some ''NaCl$s3cret!''"
    by (simp add: toy_def alice_def)
  have 4: "body_username alice_wrong = body_username alice" "truthy (body_password alice_wrong)"
    by (simp_all add: alice_def alice_wrong_def truthy_def)
  show ?thesis
    using register_once_then_duplicate [OF 1 2 3 4, of "''KCl''" "''k''" "[Login alice 3]"]
      register_alice
    by auto
qed

subsection \<open>C4: the life of a token\<close>

text \<open>
  Claim C4. The token of a successful login at the instant \<open>now\<close> carries
  \<open>iat = now\<close> and \<open>exp = now + 3600\<close> under the signature of the secret. At any
  instant \<open>t\<close>, verifying it fails with \<open>Expired\<close>, and the protected route answers
  401, when \<open>t\<close> has reached \<open>exp\<close>; before \<open>exp\<close>, and so one second before it,
  verifying yields the payload and the route answers 200.
\<close>

theorem login_token_expiry:
  assumes "jws_sound L"
    and "login L secret now users b = Response 200 (MessageToken m tok)"
  shows "\<exists>p. jws_decode L tok = Some (p, hmac L secret p) \<and>
           iat p = now \<and> exp_at p = now + 3600 \<and>
           jwt_verify L (Some tok) secret t =
             (if exp_at p \<le> t then Inl Expired else Inr p) \<and>
           protegido L secret t (Some (''Bearer '' @ tok)) =
             (if exp_at p \<le> t then Response 401 (Message msg_bad_token)
              else Response 200 (MessageUser msg_protected p))"
proof -
  obtain u :: user where tok: "tok = jwt_sign L (id_user u, username u) secret 3600 now"
    using login_200D [OF assms(2)] by blast
  define p where "p = \<lparr>claim_id = id_user u, claim_username = username u,
    iat = now, exp_at = now + 3600\<rparr>"
  have "jws_decode L tok = Some (p, hmac L secret p)"
    using assms(1) by (simp add: tok jwt_sign_def Let_def jws_sound_def p_def)
  moreover have "jwt_verify L (Some tok) secret t =
             (if exp_at p \<le> t then Inl Expired else Inr p)"
    by (simp add: tok jwt_verify_sign [OF assms(1)] p_def)
  moreover have "protegido L secret t (Some (''Bearer '' @ tok)) =
             (if exp_at p \<le> t then Response 401 (Message msg_bad_token)
              else Response 200 (MessageUser msg_protected p))"
    using protegido_bearer_signed [OF assms(1), of "''Bearer''" secret t]
    by (simp add: tok p_def)
  moreover have "iat p = now" "exp_at p = now + 3600"
    by (simp_all add: p_def)
  ultimately show ?thesis by blast
qed

text \<open>
  The theorem at the login of \<^verbatim>\<open>alice\<close> at second 5: one second after the expiry
  (3606) and one second before it (3604).
\<close>

theorem login_token_expiry_witness:
  "jws_sound toy \<and>
   login toy ''k'' 5 [alice_account] alice =
     Response 200 (MessageToken msg_auth_ok alice_token) \<and>
   (\<exists>p. jws_decode toy alice_token = Some (p, hmac toy ''k'' p) \<and>
        iat p = 5 \<and> exp_at p = 3605 \<and>
        jwt_verify toy (Some alice_token) ''k'' 3606 = Inl Expired \<and>
        protegido toy ''k'' 3606 (Some (''Bearer '' @ alice_token)) =
          Response 401 (Message msg_bad_token)) \<and>
   (\<exists>p. exp_at p = 3605 \<and>
        jwt_verify toy (Some alice_token) ''k'' 3604 = Inr p \<and>
        protegido toy ''k'' 3604 (Some (''Bearer '' @ alice_token)) =
          Response 200 (MessageUser msg_protected p))"
  using login_token_expiry [OF jws_sound_toy login_alice, of 3606]
    login_token_expiry [OF jws_sound_toy login_alice, of 3604]
    jws_sound_toy login_alice
  by auto

subsection \<open>C5: how the protected route fails\<close>

text \<open>
  Claim C5. The protected route answers 403 when the header is absent (or empty);
  when a header is present and the verification of its token fails, for whatever
  reason \<open>e\<close>, it answers 401 with the one message \<open>msg_bad_token\<close>; and
  a response carries identity claims only when the verification succeeded with them,
  and then its status is 200.
\<close>

theorem authorize_failure_mapping:
  "(\<not> truthy h \<longrightarrow> protegido L secret now h = Response 403 (Message msg_no_token)) \<and>
   (truthy h \<and> jwt_verify L (index1 (split_js CHR '' '' (the h))) secret now = Inl e \<longrightarrow>
      protegido L secret now h = Response 401 (Message msg_bad_token)) \<and>
   (user_of (json (protegido L secret now h)) = Some p \<longrightarrow>
      truthy h \<and> jwt_verify L (index1 (split_js CHR '' '' (the h))) secret now = Inr p \<and>
      protegido L secret now h = Response 200 (MessageUser msg_protected p))"
  by (auto simp: protegido_def verifyToken_def split: sum.splits)

text \<open>
  The theorem at a request without header, at a header whose token is not a token,
  and at the header with the token of \<^verbatim>\<open>alice\<close>.
\<close>

theorem authorize_failure_mapping_witness:
  "\<not> truthy None \<and>
   protegido toy ''k'' 6 None = Response 403 (Message msg_no_token) \<and>
   truthy (Some ''Bearer x'') \<and>
   jwt_verify toy (index1 (split_js CHR '' '' (the (Some ''Bearer x'')))) ''k'' 6 =
     Inl Malformed \<and>
   protegido toy ''k'' 6 (Some ''Bearer x'') = Response 401 (Message msg_bad_token) \<and>
   user_of (json (protegido toy ''k'' 6 (Some (''Bearer '' @ alice_token)))) =
     Some alice_claims \<and>
   jwt_verify toy (index1 (split_js CHR '' '' (the (Some (''Bearer '' @ alice_token))))) ''k'' 6
     = Inr alice_claims"
proof -
  have 1: "\<not> truthy None" by (simp add: truthy_def)
  have 2: "truthy (Some ''Bearer x'')" by (simp add: truthy_def)
  have 3: "jwt_verify toy (index1 (split_js CHR '' '' (the (Some ''Bearer x'')))) ''k'' 6 =
     Inl Malformed"
    by (simp add: jwt_verify_def toy_def toy_decode_def read_nat_def)
  have 4: "user_of (json (protegido toy ''k'' 6 (Some (''Bearer '' @ alice_token)))) =
     Some alice_claims"
    using protegido_bearer_signed [OF jws_sound_toy, of "''Bearer''" "''k''" 6 1 "''alice''" 3600 5]
    by (simp add: alice_token_def alice_claims_def)
  show ?thesis
    using authorize_failure_mapping [of None toy "''k''" 6]
      authorize_failure_mapping [of "Some ''Bearer x''" toy "''k''" 6 Malformed]
      authorize_failure_mapping [of "Some (''Bearer '' @ alice_token)" toy "''k''" 6 _ alice_claims]
      1 2 3 4
    by blast
qed

subsection \<open>C6: the accounts stay distinct and unchanged\<close>

text \<open>
  Claim C6. After every sequence \<open>rs\<close> of requests served one after the other from
  the empty store, the ids of the accounts are pairwise distinct and so are their
  usernames; and whatever requests \<open>rs'\<close> follow, the store after them begins with
  the store as it was: no record is changed or removed once it is in.
\<close>

theorem store_invariant:
  "distinct (map id_user (serve_all L secret [] rs)) \<and>
   distinct (map username (serve_all L secret [] rs)) \<and>
   (\<exists>new. serve_all L secret [] (rs @ rs') = serve_all L secret [] rs @ new)"
proof -
  have "store_inv []" by (simp add: store_inv_def)
  then have inv: "store_inv (serve_all L secret [] rs)"
    by (rule store_inv_serve_all)
  have "\<exists>new. serve_all L secret [] (rs @ rs') = serve_all L secret [] rs @ new"
    unfolding serve_all_append by (rule serve_all_extends)
  with inv show ?thesis
    by (simp add: store_inv_distinct_ids) (simp add: store_inv_def)
qed

subsection \<open>C7: a failure leaves nothing behind\<close>

text \<open>
  Claim C7. A registration that does not answer 201 answers 400, 409 or 500 and
  leaves the store as it was; a login that does not answer 200 sends no token; and
  a registration that passes both checks and whose hash throws answers 500 with the
  internal-error message, not 400.
\<close>

theorem failure_leaves_no_partial_state:
  "(status (snd (register L salt users b)) \<noteq> 201 \<longrightarrow>
      fst (register L salt users b) = users \<and>
      status (snd (register L salt users b)) \<in> {400, 409, 500}) \<and>
   (status (login L secret now users b) \<noteq> 200 \<longrightarrow>
      token_of (json (login L secret now users b)) = None) \<and>
   (truthy (body_username b) \<and> truthy (body_password b) \<and>
    find (\<lambda>u. username u = the (body_username b)) users = None \<and>
    bcrypt_hash L (the (body_password b)) 10 salt = None \<longrightarrow>
      register L salt users b = (users, Response 500 (Message msg_internal)))"
proof (intro conjI impI)
  assume "status (snd (register L salt users b)) \<noteq> 201"
  then show "fst (register L salt users b) = users"
    by (simp add: register_cases split: if_splits option.splits)
next
  assume "status (snd (register L salt users b)) \<noteq> 201"
  then show "status (snd (register L salt users b)) \<in> {400, 409, 500}"
    by (simp add: register_cases split: if_splits option.splits)
next
  assume "status (login L secret now users b) \<noteq> 200"
  moreover have "status (login L secret now users b) = 200 \<or>
      token_of (json (login L secret now users b)) = None"
    by (simp add: login_def split: option.splits)
  ultimately show "token_of (json (login L secret now users b)) = None"
    by blast
next
  assume "truthy (body_username b) \<and> truthy (body_password b) \<and>
    find (\<lambda>u. username u = the (body_username b)) users = None \<and>
    bcrypt_hash L (the (body_password b)) 10 salt = None"
  then show "register L salt users b = (users, Response 500 (Message msg_internal))"
    by (simp add: register_cases)
qed

text \<open>
  The theorem at a second registration of \<^verbatim>\<open>alice\<close> (409), at her login with a
  wrong password (401), and at her registration with a \<^verbatim>\<open>bcrypt.hash\<close> that always
  throws (500).
\<close>

theorem failure_leaves_no_partial_state_witness:
  "status (snd (register toy ''NaCl'' [alice_account] alice)) = 409 \<and>
   fst (register toy ''NaCl'' [alice_account] alice) = [alice_account] \<and>
   status (login toy ''k'' 5 [alice_account] alice_wrong) = 401 \<and>
   token_of (json (login toy ''k'' 5 [alice_account] alice_wrong)) = None \<and>
   bcrypt_hash (toy\<lparr>bcrypt_hash := \<lambda>pw r s. None\<rparr>) (the (body_password alice)) 10 ''NaCl''
     = None \<and>
   register (toy\<lparr>bcrypt_hash := \<lambda>pw r s. None\<rparr>) ''NaCl'' [] alice =
     ([], Response 500 (Message msg_internal))"
proof -
  have 1: "status (snd (register toy ''NaCl'' [alice_account] alice)) = 409"
    by (simp add: register_cases truthy_def alice_def alice_account_def)
  have 2: "status (login toy ''k'' 5 [alice_account] alice_wrong) = 401"
    by (simp add: login_def truthy_def alice_wrong_def alice_account_def toy_def)
  have 3: "truthy (body_username alice) \<and> truthy (body_password alice) \<and>
    find (\<lambda>u. username u = the (body_username alice)) [] = None \<and>
    bcrypt_hash (toy\<lparr>bcrypt_hash := \<lambda>pw r s. None\<rparr>) (the (body_password alice)) 10 ''NaCl''
     = None"
    by (simp add: truthy_def alice_def)
  show ?thesis
    using failure_leaves_no_partial_state
        [of toy "''NaCl''" "[alice_account]" alice "''k''" 5]
      failure_leaves_no_partial_state
        [of toy "''NaCl''" "[alice_account]" alice_wrong "''k''" 5]
      failure_leaves_no_partial_state
        [of "toy\<lparr>bcrypt_hash := \<lambda>pw r s. None\<rparr>" "''NaCl''" "[]" alice "''k''" 5]
      1 2 3
    by simp
qed

subsection \<open>C8: verifying a token does not use it up\<close>

text \<open>
  Claim C8. When the protected route answers 200 with claims \<open>p\<close> for a header, it
  answers the same for that header at every instant before \<open>exp\<close> of \<open>p\<close>; and
  serving the call leaves the store as it is.
\<close>

theorem authorize_idempotent:
  assumes "protegido L secret t1 h = Response 200 (MessageUser m p)"
    and "t2 < exp_at p"
  shows "protegido L secret t2 h = Response 200 (MessageUser m p) \<and>
         serve L secret users (Authorize h t2) = (users, Response 200 (MessageUser m p))"
  using assms
  by (auto simp: protegido_def verifyToken_def jwt_verify_def
      split: if_splits sum.splits option.splits)

text \<open>
  The theorem at the token of \<^verbatim>\<open>alice\<close>, verified at second 6 and again at second
  3000.
\<close>

theorem authorize_idempotent_witness:
  "protegido toy ''k'' 6 (Some (''Bearer '' @ alice_token)) =
     Response 200 (MessageUser msg_protected alice_claims) \<and>
   (3000::nat) < exp_at alice_claims \<and>
   protegido toy ''k'' 3000 (Some (''Bearer '' @ alice_token)) =
     Response 200 (MessageUser msg_protected alice_claims) \<and>
   serve toy ''k'' [alice_account] (Authorize (Some (''Bearer '' @ alice_token)) 3000) =
     ([alice_account], Response 200 (MessageUser msg_protected alice_claims))"
proof -
  have 1: "protegido toy ''k'' 6 (Some (''Bearer '' @ alice_token)) =
     Response 200 (MessageUser msg_protected alice_claims)"
    using protegido_bearer_signed [OF jws_sound_toy, of "''Bearer''" "''k''" 6 1 "''alice''" 3600 5]
    by (simp add: alice_token_def alice_claims_def)
  have 2: "(3000::nat) < exp_at alice_claims"
    by (simp add: alice_claims_def)
  show ?thesis
    using authorize_idempotent [OF 1 2, of "[alice_account]"] 1 2 by simp
qed

subsection \<open>C9: two registrations of one name that overlap\<close>

text \<open>
  Claim C9 asks that of the registrations of one username that run at the same time
  exactly one succeeds. The check of line 62 and the \<^verbatim>\<open>push\<close> of line 70 are divided
  by the \<^verbatim>\<open>await\<close> of line 67. When a second registration of \<^verbatim>\<open>alice\<close> arrives
  while the first waits for its hash, both pass the check on the empty store, both
  answer 201, and the store ends with two accounts named \<^verbatim>\<open>alice\<close>, of ids 1 and 2.
\<close>

theorem concurrent_register_same_username:
  "register_overlapped toy [] alice ''NaCl'' alice ''KCl'' =
     ([\<lparr>id_user = 1, username = ''alice'', password = ''NaCl$s3cret!''\<rparr>,
       \<lparr>id_user = 2, username = ''alice'', password = ''KCl$s3cret!''\<rparr>],
      Response 201 (Message msg_registered), Response 201 (Message msg_registered))"
  by (simp add: register_overlapped_def register_check_def register_resume_def
      truthy_def toy_def alice_def)

text \<open>
  The same for every library, store and pair of requests: when both requests pass the
  two checks on the store as it was and both hashes succeed, both answer 201 and two
  accounts are appended, the second under the name of the second request, whether or
  not it is the name of the first.
\<close>

lemma register_overlapped_both:
  assumes "register_check users b1 = Inr (name1, pw1)"
    and "register_check users b2 = Inr (name2, pw2)"
    and "bcrypt_hash L pw1 10 salt1 = Some h1"
    and "bcrypt_hash L pw2 10 salt2 = Some h2"
  shows "register_overlapped L users b1 salt1 b2 salt2 =
     (users @ [\<lparr>id_user = length users + 1, username = name1, password = h1\<rparr>,
               \<lparr>id_user = length users + 2, username = name2, password = h2\<rparr>],
      Response 201 (Message msg_registered), Response 201 (Message msg_registered))"
  using assms by (simp add: register_overlapped_def register_resume_def)

subsection \<open>C10: what the middleware takes for the token\<close>

text \<open>
  Claim C10, as the code has it. The middleware verifies the piece of the header
  between its first and its second space (all that follows the first space when
  there is no second) and never looks at the scheme word. So a token that verifies is
  accepted behind any scheme without a space, also when a space and more text follow
  it; a header that is not empty and has no space is answered 401, the verification
  running on \<^verbatim>\<open>undefined\<close>; and the empty header is answered 403, as a missing one.
\<close>

theorem bearer_header_parsing:
  "(CHR '' '' \<notin> set scheme \<longrightarrow>
      protegido L secret now (Some (scheme @ '' '' @ rest)) =
        (case jwt_verify L (Some (takeWhile (\<lambda>x. x \<noteq> CHR '' '') rest)) secret now of
           Inl e \<Rightarrow> Response 401 (Message msg_bad_token)
         | Inr p \<Rightarrow> Response 200 (MessageUser msg_protected p))) \<and>
   (CHR '' '' \<notin> set scheme \<and> CHR '' '' \<notin> set tok \<and>
    jwt_verify L (Some tok) secret now = Inr p \<longrightarrow>
      protegido L secret now (Some (scheme @ '' '' @ tok)) =
        Response 200 (MessageUser msg_protected p) \<and>
      protegido L secret now (Some (scheme @ '' '' @ tok @ '' '' @ junk)) =
        Response 200 (MessageUser msg_protected p)) \<and>
   (h \<noteq> [] \<and> CHR '' '' \<notin> set h \<longrightarrow>
      protegido L secret now (Some h) = Response 401 (Message msg_bad_token)) \<and>
   protegido L secret now (Some []) = Response 403 (Message msg_no_token)"
proof (intro conjI impI)
  assume "CHR '' '' \<notin> set scheme"
  then show "protegido L secret now (Some (scheme @ '' '' @ rest)) =
        (case jwt_verify L (Some (takeWhile (\<lambda>x. x \<noteq> CHR '' '') rest)) secret now of
           Inl e \<Rightarrow> Response 401 (Message msg_bad_token)
         | Inr p \<Rightarrow> Response 200 (MessageUser msg_protected p))"
    by (simp add: protegido_def verifyToken_scheme split: sum.splits)
next
  assume a: "CHR '' '' \<notin> set scheme \<and> CHR '' '' \<notin> set tok \<and>
    jwt_verify L (Some tok) secret now = Inr p"
  then show "protegido L secret now (Some (scheme @ '' '' @ tok)) =
        Response 200 (MessageUser msg_protected p)"
    by (simp add: protegido_def verifyToken_scheme takeWhile_no_sep)
  from a show "protegido L secret now (Some (scheme @ '' '' @ tok @ '' '' @ junk)) =
        Response 200 (MessageUser msg_protected p)"
    by (simp add: protegido_def verifyToken_scheme takeWhile_sep)
next
  assume "h \<noteq> [] \<and> CHR '' '' \<notin> set h"
  then show "protegido L secret now (Some h) = Response 401 (Message msg_bad_token)"
    by (simp add: protegido_def verifyToken_def truthy_def index1_split_js_no_sep
        jwt_verify_def)
next
  show "protegido L secret now (Some []) = Response 403 (Message msg_no_token)"
    by (simp add: protegido_def verifyToken_def truthy_def)
qed

text \<open>
  The theorem at the token of \<^verbatim>\<open>alice\<close> behind the scheme \<^verbatim>\<open>Token\<close>, with and
  without text after it, and at the bare token.
\<close>

theorem bearer_header_parsing_witness:
  "CHR '' '' \<notin> set ''Token'' \<and> CHR '' '' \<notin> set alice_token \<and>
   jwt_verify toy (Some alice_token) ''k'' 6 = Inr alice_claims \<and>
   protegido toy ''k'' 6 (Some (''Token'' @ '' '' @ alice_token)) =
     Response 200 (MessageUser msg_protected alice_claims) \<and>
   protegido toy ''k'' 6 (Some (''Token'' @ '' '' @ alice_token @ '' '' @ ''x'')) =
     Response 200 (MessageUser msg_protected alice_claims) \<and>
   alice_token \<noteq> [] \<and>
   protegido toy ''k'' 6 (Some alice_token) = Response 401 (Message msg_bad_token)"
proof -
  have 1: "CHR '' '' \<notin> set ''Token''" by simp
  have 2: "CHR '' '' \<notin> set alice_token"
    by (simp add: alice_token_def jwt_sign_no_space [OF jws_sound_toy])
  have 3: "jwt_verify toy (Some alice_token) ''k'' 6 = Inr alice_claims"
    by (simp add: alice_token_def jwt_verify_sign [OF jws_sound_toy] alice_claims_def)
  have 4: "alice_token \<noteq> []"
    by (simp add: alice_token_def jwt_sign_def Let_def toy_def toy_encode_not_empty)
  show ?thesis
    using bearer_header_parsing
      [of "''Token''" toy "''k''" 6 "alice_token" alice_token alice_claims "''x''" alice_token]
      1 2 3 4
    by blast
qed

text \<open>
  Where the claim as first stated fails. With the token of \<^verbatim>\<open>alice\<close> followed by
  a space and \<^verbatim>\<open>x\<close>, what follows the first space of the header is not a token
  (verifying it fails), and yet the route answers 200: the middleware has taken the
  piece up to the second space. And the empty header, which has no space, is
  answered 403, not 401.
\<close>

theorem bearer_header_parsing_counterexample:
  "login toy ''k'' 5 [alice_account] alice =
     Response 200 (MessageToken msg_auth_ok alice_token) \<and>
   jwt_verify toy (Some (alice_token @ '' x'')) ''k'' 6 = Inl Malformed \<and>
   protegido toy ''k'' 6 (Some (''Bearer '' @ alice_token @ '' x'')) =
     Response 200 (MessageUser msg_protected alice_claims) \<and>
   protegido toy ''k'' 6 (Some '''') = Response 403 (Message msg_no_token)"
proof (intro conjI)
  show "login toy ''k'' 5 [alice_account] alice =
     Response 200 (MessageToken msg_auth_ok alice_token)"
    by (rule login_alice)
  show "jwt_verify toy (Some (alice_token @ '' x'')) ''k'' 6 = Inl Malformed"
    by (simp add: jwt_verify_def alice_token_def jwt_sign_def Let_def toy_def
        toy_decode_trailing toy_encode_not_empty)
  have "jwt_verify toy (Some alice_token) ''k'' 6 = Inr alice_claims"
    by (simp add: alice_token_def jwt_verify_sign [OF jws_sound_toy] alice_claims_def)
  moreover have "CHR '' '' \<notin> set alice_token"
    by (simp add: alice_token_def jwt_sign_no_space [OF jws_sound_toy])
  ultimately show "protegido toy ''k'' 6 (Some (''Bearer '' @ alice_token @ '' x'')) =
     Response 200 (MessageUser msg_protected alice_claims)"
    using verifyToken_scheme [of "''Bearer''" toy "''k''" 6 "alice_token @ '' x''"]
    by (simp add: protegido_def takeWhile_sep)
  show "protegido toy ''k'' 6 (Some '''') = Response 403 (Message msg_no_token)"
    by (simp add: protegido_def verifyToken_def truthy_def)
qed

end
